theory Spec2Isabelle
  imports Main
begin

section \<open>Python values used by the piece table\<close>

text \<open>
  The two source files are \<^verbatim>\<open>text_block.py\<close> (class \<^verbatim>\<open>TextBlock\<close>) and
  \<^verbatim>\<open>piece_table.py\<close> (class \<^verbatim>\<open>PieceTable\<close>). Python integers are unbounded and
  may be negative, so line numbers, lengths, block ids and handles are \<open>int\<close>; positions
  produced by \<^verbatim>\<open>enumerate\<close> and \<^verbatim>\<open>range\<close> over the table are \<open>nat\<close>. A Python
  string is represented by its UTF-8 encoding: a \<open>string\<close> is the list of its bytes (a
  code point below 128 is one byte, every other one a sequence of two to four bytes from
  128 on).

  The exceptions the two classes can raise are \<^verbatim>\<open>ValueError\<close> (with its message) and the
  \<^verbatim>\<open>IndexError\<close> of a list subscript out of range. The specification calls the first
  one LineOutOfRange or IllegalRegion, depending on the message, and the second one
  UnknownBlock when it comes out of \<^verbatim>\<open>close_block\<close>.
\<close>

datatype error = ValueError string | IndexError

text \<open>
  \<^verbatim>\<open>xs[i]\<close>: a negative subscript counts from the end, and a subscript outside
  \<open>-len(xs) \<le> i < len(xs)\<close> raises \<^verbatim>\<open>IndexError\<close>.
\<close>

definition py_index :: "'a list \<Rightarrow> int \<Rightarrow> error + 'a" where
  "py_index xs i =
     (if 0 \<le> i \<and> i < int (length xs) then Inr (xs ! nat i)
      else if i < 0 \<and> - int (length xs) \<le> i then Inr (xs ! nat (int (length xs) + i))
      else Inl IndexError)"

text \<open>
  \<^verbatim>\<open>xs[a:b]\<close> with two integer bounds: each bound is first brought into \<open>0 .. len(xs)\<close>
  (a negative bound has \<open>len(xs)\<close> added and is then raised to 0, a bound above
  \<open>len(xs)\<close> is lowered to it), and the slice is empty when the bounds cross. A slice
  never raises.
\<close>

definition slice_bound :: "nat \<Rightarrow> int \<Rightarrow> nat" where
  "slice_bound n i = (if i < 0 then nat (max 0 (int n + i)) else min n (nat i))"

definition py_slice :: "'a list \<Rightarrow> int \<Rightarrow> int \<Rightarrow> 'a list" where
  "py_slice xs a b =
     (let lo = slice_bound (length xs) a; hi = slice_bound (length xs) b
      in take (hi - lo) (drop lo xs))"

text \<open>\<^verbatim>\<open>xs.insert(i, x)\<close> for \<open>i \<ge> 0\<close>: a position past the end appends.\<close>

definition list_insert :: "'a list \<Rightarrow> nat \<Rightarrow> 'a \<Rightarrow> 'a list" where
  "list_insert xs i x = take i xs @ x # drop i xs"

text \<open>
  \<^verbatim>\<open>s.splitlines(True)\<close>: the string is cut after every line boundary and every line keeps
  its boundary. Python's line boundaries are CR LF, LF, VT, FF, CR, FS, GS, RS, NEL
  (U+0085), LS (U+2028) and PS (U+2029); \<open>line_boundaries\<close> lists their encodings, CR LF
  before CR, since CR LF counts as one boundary. In the encoding of a string, the bytes
  of a boundary occur in a row only where the string has that boundary (a first byte of
  an encoded code point is never a later byte of one), so cutting the bytes cuts the
  string where Python cuts it. \<open>at_head t s\<close>: the text \<open>s\<close> starts with \<open>t\<close>.
  \<open>line_end s\<close> is the length of the boundary \<open>s\<close> starts with, and 0 when it starts
  with none. The first argument of \<open>splitlines_from\<close> is the line collected so far.
\<close>

definition at_head :: "string \<Rightarrow> string \<Rightarrow> bool" where
  "at_head t s = (take (length t) s = t)"

definition line_boundaries :: "string list" where
  "line_boundaries =
     [[CHR 0x0D, CHR 0x0A], [CHR 0x0A], [CHR 0x0B], [CHR 0x0C], [CHR 0x0D],
      [CHR 0x1C], [CHR 0x1D], [CHR 0x1E], [CHR 0xC2, CHR 0x85],
      [CHR 0xE2, CHR 0x80, CHR 0xA8], [CHR 0xE2, CHR 0x80, CHR 0xA9]]"

definition line_end :: "string \<Rightarrow> nat" where
  "line_end s =
     (case find (\<lambda>t. at_head t s) line_boundaries of None \<Rightarrow> 0 | Some t \<Rightarrow> length t)"

fun splitlines_from :: "string \<Rightarrow> string \<Rightarrow> string list" where
  "splitlines_from cur [] = (if cur = [] then [] else [cur])"
| "splitlines_from cur (c # cs) =
     (let n = line_end (c # cs)
      in if n = 0 then splitlines_from (cur @ [c]) cs
         else (cur @ take n (c # cs)) # splitlines_from [] (drop n (c # cs)))"

definition splitlines :: "string \<Rightarrow> string list" where
  "splitlines s = splitlines_from [] s"

section \<open>TextBlock\<close>

record TextBlock =
  opened :: bool
  lines :: "string list"

text \<open>\<^verbatim>\<open>TextBlock(lines, is_open)\<close>; the source's default for \<^verbatim>\<open>is_open\<close> is \<^verbatim>\<open>True\<close>.\<close>

definition TextBlock_init :: "string list \<Rightarrow> bool \<Rightarrow> TextBlock" where
  "TextBlock_init ls is_open = \<lparr>opened = is_open, lines = ls\<rparr>"

definition tb_len :: "TextBlock \<Rightarrow> int" where
  "tb_len b = int (length (lines b))"

text \<open>\<^verbatim>\<open>TextBlock.get_lines\<close> is the slice \<^verbatim>\<open>self.lines[start:start + length]\<close>.\<close>

definition tb_get_lines :: "TextBlock \<Rightarrow> int \<Rightarrow> int \<Rightarrow> error + string list" where
  "tb_get_lines b start len = Inr (py_slice (lines b) start (start + len))"

definition tb_close :: "TextBlock \<Rightarrow> TextBlock" where
  "tb_close b = b\<lparr>opened := False\<rparr>"

definition tb_is_open :: "TextBlock \<Rightarrow> bool" where
  "tb_is_open b = opened b"

definition tb_set_content :: "TextBlock \<Rightarrow> string \<Rightarrow> TextBlock" where
  "tb_set_content b content = b\<lparr>lines := splitlines content\<rparr>"

section \<open>PieceTable\<close>

text \<open>
  A table entry is the Python list \<^verbatim>\<open>[block_id, start, length]\<close>, read by position in the
  source (\<^verbatim>\<open>entry[0]\<close>, \<^verbatim>\<open>entry[1]\<close>, \<^verbatim>\<open>entry[2]\<close>). Every entry is a list of its own,
  so updating one entry in place changes no other.
\<close>

record entry =
  ent_block :: int
  ent_start :: int
  ent_length :: int

record PieceTable =
  blocks :: "TextBlock list"
  table :: "entry list"

text \<open>
  The constructor takes the document as a string or as a list of lines
  (\<^verbatim>\<open>isinstance(text, str)\<close> decides).
\<close>

datatype document = StrText string | LineList "string list"

definition PieceTable_init :: "document \<Rightarrow> PieceTable" where
  "PieceTable_init text =
     (let ls = (case text of StrText s \<Rightarrow> splitlines s | LineList l \<Rightarrow> l);
          orig_block = TextBlock_init ls False
      in \<lparr>blocks = [orig_block],
          table = [\<lparr>ent_block = 0, ent_start = 0, ent_length = int (length ls)\<rparr>]\<rparr>)"

text \<open>\<^verbatim>\<open>__len__\<close>: the sum of the entries' lengths.\<close>

definition pt_len :: "PieceTable \<Rightarrow> int" where
  "pt_len t = sum_list (map ent_length (table t))"

text \<open>
  \<^verbatim>\<open>line_to_table_index\<close>: the scan over \<^verbatim>\<open>enumerate(self.table)\<close>. The arguments of
  \<open>locate_from\<close> are the entries not yet visited, the line, the position \<open>i\<close> of the first
  of these entries and the running \<open>block_start\<close>.
\<close>

fun locate_from :: "entry list \<Rightarrow> int \<Rightarrow> nat \<Rightarrow> int \<Rightarrow> error + (nat \<times> int)" where
  "locate_from [] line i block_start = Inl (ValueError ''Invalid line number'')"
| "locate_from (e # es) line i block_start =
     (let block_length = ent_length e
      in if line \<ge> block_start \<and> line < block_start + block_length
         then Inr (i, line - block_start)
         else locate_from es line (Suc i) (block_start + block_length))"

definition line_to_table_index :: "PieceTable \<Rightarrow> int \<Rightarrow> error + (nat \<times> int)" where
  "line_to_table_index t line = locate_from (table t) line 0 0"

text \<open>\<^verbatim>\<open>get_block_start\<close>: the sum over the slice \<^verbatim>\<open>self.table[:block_index]\<close>.\<close>

definition get_block_start :: "PieceTable \<Rightarrow> int \<Rightarrow> int" where
  "get_block_start t block_index =
     sum_list (map ent_length (take (slice_bound (length (table t)) block_index) (table t)))"

text \<open>
  \<^verbatim>\<open>get_block_range\<close>. The while loop runs over the entries at the positions
  \<open>first + last_off\<close>, \<open>first + last_off + 1\<close>, ... of the table: \<open>range_loop\<close> takes these
  entries as a list, so that its list is empty exactly when
  \<^verbatim>\<open>first + last_off < len(self.table)\<close> fails. It returns the final \<open>last_off\<close>.
\<close>

fun range_loop :: "entry list \<Rightarrow> int \<Rightarrow> nat \<Rightarrow> nat" where
  "range_loop [] length_rem last_off = last_off"
| "range_loop (e # es) length_rem last_off =
     (if length_rem > 0 then range_loop es (length_rem - ent_length e) (Suc last_off)
      else last_off)"

definition get_block_range :: "PieceTable \<Rightarrow> int \<Rightarrow> int \<Rightarrow> error + (nat \<times> nat)" where
  "get_block_range t start len =
     (case line_to_table_index t start of
        Inl x \<Rightarrow> Inl x
      | Inr (first, offset) \<Rightarrow>
          let length_rem = len - (ent_length (table t ! first) - offset);
              last_off = range_loop (drop (first + 1) (table t)) length_rem 1
          in Inr (first, first + last_off - 1))"

text \<open>
  \<^verbatim>\<open>get_lines\<close>. The for loop runs over \<^verbatim>\<open>range(first, last + 1)\<close>; \<open>get_lines_loop\<close>
  takes the positions still to visit, the remaining length and the lines collected so
  far. The remaining length is decremented by the entry's whole length
  (\<^verbatim>\<open>length_rem -= tab_ent[2]\<close>), also for the first entry.
\<close>

fun get_lines_loop ::
  "PieceTable \<Rightarrow> nat \<Rightarrow> int \<Rightarrow> nat list \<Rightarrow> int \<Rightarrow> string list \<Rightarrow> error + string list" where
  "get_lines_loop t first offset [] length_rem acc = Inr acc"
| "get_lines_loop t first offset (i # rest) length_rem acc =
     (let tab_ent = table t ! i
      in (case py_index (blocks t) (ent_block tab_ent) of
            Inl x \<Rightarrow> Inl x
          | Inr block \<Rightarrow>
              let line_s = (if i = first then ent_start tab_ent + offset else ent_start tab_ent);
                  line_c = (if i = first then ent_length tab_ent - offset else ent_length tab_ent)
              in (case tb_get_lines block line_s (min length_rem line_c) of
                    Inl x \<Rightarrow> Inl x
                  | Inr ls \<Rightarrow>
                      get_lines_loop t first offset rest (length_rem - ent_length tab_ent)
                        (acc @ ls))))"

definition get_lines :: "PieceTable \<Rightarrow> int \<Rightarrow> int \<Rightarrow> error + string list" where
  "get_lines t start len0 =
     (let len = (if len0 < 0 then pt_len t else len0)
      in (case line_to_table_index t start of
            Inl x \<Rightarrow> Inl x
          | Inr (index, offset) \<Rightarrow>
              (case get_block_range t start len of
                 Inl x \<Rightarrow> Inl x
               | Inr (first, last_b) \<Rightarrow>
                   get_lines_loop t first offset [first..<Suc last_b] len [])))"

text \<open>
  \<^verbatim>\<open>stitch\<close>: every entry's run of lines, in table order. (The source also keeps a
  counter \<^verbatim>\<open>position\<close> that nothing reads.)
\<close>

fun stitch_loop :: "TextBlock list \<Rightarrow> entry list \<Rightarrow> string list \<Rightarrow> error + string list" where
  "stitch_loop bs [] stitched_file = Inr stitched_file"
| "stitch_loop bs (e # es) stitched_file =
     (case py_index bs (ent_block e) of
        Inl x \<Rightarrow> Inl x
      | Inr block \<Rightarrow>
          (case tb_get_lines block (ent_start e) (ent_length e) of
             Inl x \<Rightarrow> Inl x
           | Inr ls \<Rightarrow> stitch_loop bs es (stitched_file @ ls)))"

definition stitch :: "PieceTable \<Rightarrow> error + string list" where
  "stitch t = stitch_loop (blocks t) (table t) []"

text \<open>
  The operations that change the table return the table as it is when the call ends,
  with the value returned or the exception raised. \<^verbatim>\<open>remove_closed_blocks\<close> assigns
  \<^verbatim>\<open>TextBlock(stitched_file)\<close> to \<^verbatim>\<open>self.blocks[0]\<close>, with the default \<^verbatim>\<open>is_open\<close>.
\<close>

definition remove_closed_blocks :: "PieceTable \<Rightarrow> PieceTable \<times> (error + string list)" where
  "remove_closed_blocks t =
     (case stitch t of
        Inl x \<Rightarrow> (t, Inl x)
      | Inr stitched_file \<Rightarrow>
          (case blocks t of
             [] \<Rightarrow> (t, Inl IndexError)
           | b # bs \<Rightarrow>
               (t\<lparr>blocks := TextBlock_init stitched_file True # bs\<rparr>, Inr stitched_file)))"

text \<open>
  \<^verbatim>\<open>open_block\<close>, first loop: \<^verbatim>\<open>self.blocks[self.table[block_index][0]].is_open()\<close> for
  every position of the range.
\<close>

fun check_closed :: "PieceTable \<Rightarrow> nat list \<Rightarrow> error + unit" where
  "check_closed t [] = Inr ()"
| "check_closed t (block_index # rest) =
     (case py_index (blocks t) (ent_block (table t ! block_index)) of
        Inl x \<Rightarrow> Inl x
      | Inr block \<Rightarrow>
          if tb_is_open block then Inl (ValueError ''Illegal block request'')
          else check_closed t rest)"

text \<open>
  \<^verbatim>\<open>open_block\<close>, last loop. It runs over the entries from \<open>cur_block_index\<close> on, which
  \<open>cut_loop\<close> takes as a list: \<^verbatim>\<open>pop(cur_block_index)\<close> drops the head of that list and
  the else branch rewrites the head and leaves the loop.
\<close>

fun cut_loop :: "entry list \<Rightarrow> int \<Rightarrow> entry list" where
  "cut_loop [] length_rem = []"
| "cut_loop (e # es) length_rem =
     (if length_rem > 0 then
        (let block_len = ent_length e
         in if length_rem > block_len then cut_loop es (length_rem - block_len)
            else e\<lparr>ent_start := ent_start e + length_rem,
                   ent_length := ent_length e - length_rem\<rparr> # es)
      else e # es)"

definition open_block :: "PieceTable \<Rightarrow> int \<Rightarrow> int \<Rightarrow> PieceTable \<times> (error + int)" where
  "open_block t start len =
     (case get_block_range t start len of
        Inl x \<Rightarrow> (t, Inl x)
      | Inr (range_start, range_end) \<Rightarrow>
          (case check_closed t [range_start..<Suc range_end] of
             Inl x \<Rightarrow> (t, Inl x)
           | Inr u \<Rightarrow>
               if start + len > pt_len t then (t, Inl (ValueError ''Illegal block request''))
               else
                 (case get_lines t start len of
                    Inl x \<Rightarrow> (t, Inl x)
                  | Inr block_lines \<Rightarrow>
                      let new_block = TextBlock_init block_lines True;
                          t1 = t\<lparr>blocks := blocks t @ [new_block]\<rparr>
                      in (case line_to_table_index t1 start of
                            Inl x \<Rightarrow> (t1, Inl x)
                          | Inr (index, offset) \<Rightarrow>
                              let prev_len = ent_length (table t1 ! index);
                                  tab1 = (table t1)[index := (table t1 ! index)\<lparr>ent_length := offset\<rparr>];
                                  tab2 = list_insert tab1 (index + 1)
                                           \<lparr>ent_block = int (length (blocks t1)) - 1,
                                            ent_start = 0, ent_length = len\<rparr>;
                                  rem = prev_len - (offset + len);
                                  tab3 =
                                    (if rem > 0 then
                                       let n_start = ent_start (tab2 ! index) + offset + len
                                       in list_insert tab2 (index + 2)
                                            \<lparr>ent_block = ent_block (tab2 ! index),
                                             ent_start = n_start, ent_length = rem\<rparr>
                                     else
                                       let length_rem = - 1 * rem
                                       in take (index + 2) tab2
                                            @ cut_loop (drop (index + 2) tab2) length_rem)
                              in (t1\<lparr>table := tab3\<rparr>, Inr (int index + 1))))))"

text \<open>\<^verbatim>\<open>close_block\<close>: \<^verbatim>\<open>self.blocks[index].close()\<close>.\<close>

definition close_block :: "PieceTable \<Rightarrow> int \<Rightarrow> PieceTable \<times> (error + unit)" where
  "close_block t index =
     (case py_index (blocks t) index of
        Inl x \<Rightarrow> (t, Inl x)
      | Inr block \<Rightarrow>
          let k = (if index < 0 then nat (int (length (blocks t)) + index) else nat index)
          in (t\<lparr>blocks := (blocks t)[k := tb_close block]\<rparr>, Inr ()))"

text \<open>
  A client's sequence of calls: after a call that raised, the table is the one the
  call left behind, and the next call runs on it.
\<close>

datatype call = OpenBlock int int | CloseBlock int

fun exec :: "PieceTable \<Rightarrow> call \<Rightarrow> PieceTable" where
  "exec t (OpenBlock start len) = fst (open_block t start len)"
| "exec t (CloseBlock index) = fst (close_block t index)"

section \<open>Notions used in the statements and proofs\<close>

text \<open>
  The table a successful \<open>open_block\<close> leaves, written from the parts of the old table:
  \<open>pre\<close> are the entries before the one that holds line \<open>start\<close>, \<open>e\<close> is that entry,
  \<open>post\<close> are the entries after it, \<open>off\<close> is the offset of \<open>start\<close> in \<open>e\<close> and
  \<open>new_id\<close> the id of the new block. Lemma \<open>open_block_Inr\<close> below proves that
  \<open>open_block\<close> computes this table.
\<close>

definition split_table ::
  "entry list \<Rightarrow> entry \<Rightarrow> entry list \<Rightarrow> int \<Rightarrow> int \<Rightarrow> int \<Rightarrow> entry list" where
  "split_table pre e post off new_id len =
     pre @ e\<lparr>ent_length := off\<rparr> # \<lparr>ent_block = new_id, ent_start = 0, ent_length = len\<rparr> #
       (if ent_length e - (off + len) > 0
        then \<lparr>ent_block = ent_block e, ent_start = ent_start e + off + len,
              ent_length = ent_length e - (off + len)\<rparr> # post
        else cut_loop post (off + len - ent_length e))"

text \<open>Every entry of the table has a length of at least 0.\<close>

definition nonneg_entries :: "PieceTable \<Rightarrow> bool" where
  "nonneg_entries t = list_all (\<lambda>e. 0 \<le> ent_length e) (table t)"

text \<open>A call that does not ask for a region of negative length.\<close>

definition nonneg_call :: "call \<Rightarrow> bool" where
  "nonneg_call c = (case c of OpenBlock start len \<Rightarrow> 0 \<le> len | CloseBlock index \<Rightarrow> True)"

text \<open>
  The list of the lines of a string in which every line keeps its own terminator, in
  the words of the specification and not as an algorithm. The terminators are those of
  Python's table of line boundaries: LF, VT, FF, CR, CR LF, FS, GS, RS, NEL (U+0085),
  LS (U+2028) and PS (U+2029). A text has \<open>no_break\<close> when no terminator occurs in it. A
  line is \<open>terminated\<close> when it is a text without a terminator followed by one
  terminator. \<open>keepends_lines s ls\<close>: the lines \<open>ls\<close> put together are \<open>s\<close>; every line
  but the last is terminated; the last line is not empty and is terminated or holds no
  terminator at all; and no CR LF is cut in two, a line ending in CR before a line
  starting with LF.
\<close>

definition line_terminators :: "string list" where
  "line_terminators =
     [[CHR 0x0A], [CHR 0x0B], [CHR 0x0C], [CHR 0x0D], [CHR 0x0D, CHR 0x0A],
      [CHR 0x1C], [CHR 0x1D], [CHR 0x1E],
      [CHR 0xC2, CHR 0x85], [CHR 0xE2, CHR 0x80, CHR 0xA8], [CHR 0xE2, CHR 0x80, CHR 0xA9]]"

definition starts_break :: "string \<Rightarrow> bool" where
  "starts_break s = list_ex (\<lambda>t. take (length t) s = t) line_terminators"

fun no_break :: "string \<Rightarrow> bool" where
  "no_break [] = True"
| "no_break (c # cs) = (\<not> starts_break (c # cs) \<and> no_break cs)"

definition terminated :: "string \<Rightarrow> bool" where
  "terminated l =
     list_ex (\<lambda>t. length t \<le> length l \<and> drop (length l - length t) l = t
                  \<and> no_break (take (length l - length t) l)) line_terminators"

fun lines_ok :: "string list \<Rightarrow> bool" where
  "lines_ok [] = True"
| "lines_ok [l] = (l \<noteq> [] \<and> (no_break l \<or> terminated l))"
| "lines_ok (l # l' # ls) =
     (terminated l \<and> \<not> (last l = CHR 0x0D \<and> hd l' = CHR 0x0A) \<and> lines_ok (l' # ls))"

definition keepends_lines :: "string \<Rightarrow> string list \<Rightarrow> bool" where
  "keepends_lines s ls = (concat ls = s \<and> lines_ok ls)"

text \<open>
  For the proofs about \<open>splitlines\<close>: \<open>ok_head x\<close> says that \<open>x\<close> does not start with a
  byte that could complete a boundary begun before it, and \<open>clean cur s\<close> that no
  boundary starts inside \<open>cur\<close>, also when it is read on into \<open>s\<close>.
\<close>

definition ok_head :: "string \<Rightarrow> bool" where
  "ok_head x = (x = [] \<or> hd x \<notin> {CHR 0x85, CHR 0x80, CHR 0xA8, CHR 0xA9})"

fun clean :: "string \<Rightarrow> string \<Rightarrow> bool" where
  "clean [] s = True"
| "clean (c # cs) s = (\<not> starts_break (c # cs @ s) \<and> clean cs s)"

section \<open>Lemmas about the table algorithms\<close>

lemma slice_nonneg:
  "0 \<le> a \<Longrightarrow> 0 \<le> l \<Longrightarrow> py_slice xs a (a + l) = take (nat l) (drop (nat a) xs)"
  by (auto simp: py_slice_def slice_bound_def Let_def min_def nat_add_distrib)

text \<open>
  Where the scan finds the line: the table splits into the entries before, the entry
  found and the entries after, and the offset is the distance from the start of the
  entry found.
\<close>

lemma locate_from_Inr:
  "locate_from es line i bs = Inr (j, off) \<Longrightarrow>
     \<exists>pre e post. es = pre @ e # post \<and> j = i + length pre
       \<and> off = line - (bs + sum_list (map ent_length pre)) \<and> 0 \<le> off \<and> off < ent_length e"
proof (induction es arbitrary: i bs)
  case Nil
  then show ?case by simp
next
  case (Cons a es)
  show ?case
  proof (cases "bs \<le> line \<and> line < bs + ent_length a")
    case True
    with Cons.prems have "j = i" "off = line - bs" by (auto simp: Let_def)
    with True have "a # es = [] @ a # es \<and> j = i + length ([]::entry list)
       \<and> off = line - (bs + sum_list (map ent_length [])) \<and> 0 \<le> off \<and> off < ent_length a"
      by simp
    then show ?thesis by blast
  next
    case False
    with Cons.prems have "locate_from es line (Suc i) (bs + ent_length a) = Inr (j, off)"
      by (auto simp: Let_def)
    from Cons.IH[OF this] obtain pre e post where
      h: "es = pre @ e # post" "j = Suc i + length pre"
         "off = line - (bs + ent_length a + sum_list (map ent_length pre))"
         "0 \<le> off" "off < ent_length e"
      by blast
    then have "a # es = (a # pre) @ e # post \<and> j = i + length (a # pre)
       \<and> off = line - (bs + sum_list (map ent_length (a # pre))) \<and> 0 \<le> off \<and> off < ent_length e"
      by (simp add: add.assoc)
    then show ?thesis by blast
  qed
qed

lemma line_to_table_index_Inr:
  assumes "line_to_table_index t line = Inr (j, off)"
  shows "\<exists>pre e post. table t = pre @ e # post \<and> j = length pre
       \<and> off = line - sum_list (map ent_length pre) \<and> 0 \<le> off \<and> off < ent_length e"
  using locate_from_Inr[OF assms[unfolded line_to_table_index_def]] by simp

lemma line_to_table_index_blocks:
  "line_to_table_index (t\<lparr>blocks := bs\<rparr>) line = line_to_table_index t line"
  by (simp add: line_to_table_index_def)

lemma get_block_range_Inr:
  "get_block_range t s l = Inr (a, b) \<Longrightarrow> \<exists>off. line_to_table_index t s = Inr (a, off)"
  by (auto simp: get_block_range_def Let_def split: sum.splits prod.splits)

text \<open>
  Every exception of \<open>open_block\<close> is raised before the first mutation: the only raise
  after \<^verbatim>\<open>self.blocks.append\<close> would be the second \<^verbatim>\<open>line_to_table_index(start)\<close>, which
  reads the same table as the first one and so succeeds as it did.
\<close>

lemma open_block_Inl: "open_block t start len = (t', Inl x) \<Longrightarrow> t' = t"
  by (auto simp: open_block_def Let_def line_to_table_index_blocks
       split: sum.splits prod.splits if_splits dest!: get_block_range_Inr)

lemma open_block_Inr:
  assumes "open_block t start len = (t', Inr h)"
  shows "\<exists>pre e post ls. table t = pre @ e # post
     \<and> 0 \<le> start - sum_list (map ent_length pre)
     \<and> start - sum_list (map ent_length pre) < ent_length e
     \<and> start + len \<le> pt_len t
     \<and> get_lines t start len = Inr ls
     \<and> h = int (length pre) + 1
     \<and> blocks t' = blocks t @ [\<lparr>opened = True, lines = ls\<rparr>]
     \<and> table t' = split_table pre e post (start - sum_list (map ent_length pre))
                     (int (length (blocks t))) len"
proof -
  from assms obtain a b ls where
    r: "get_block_range t start len = Inr (a, b)" and
    le: "start + len \<le> pt_len t" and
    gl: "get_lines t start len = Inr ls"
    by (auto simp: open_block_def Let_def split: sum.splits prod.splits if_splits)
  from get_block_range_Inr[OF r] obtain off where
    l: "line_to_table_index t start = Inr (a, off)" by blast
  from line_to_table_index_Inr[OF l] obtain pre e post where
    d: "table t = pre @ e # post" "a = length pre"
       "off = start - sum_list (map ent_length pre)"
       "0 \<le> off" "off < ent_length e" by blast
  from assms r le gl l d have
    "h = int (length pre) + 1"
    "blocks t' = blocks t @ [\<lparr>opened = True, lines = ls\<rparr>]"
    "table t' = split_table pre e post off (int (length (blocks t))) len"
    by (auto simp: open_block_def Let_def line_to_table_index_blocks TextBlock_init_def
          list_insert_def split_table_def nth_append
          split: sum.splits prod.splits if_splits)
  with d le gl show ?thesis by blast
qed

lemma close_block_table: "table (fst (close_block t index)) = table t"
  by (simp add: close_block_def Let_def split: sum.splits)

subsection \<open>The sum of the lengths\<close>

text \<open>
  The last loop of \<open>open_block\<close> takes exactly \<open>r\<close> lines off the entries it runs over,
  provided they hold that many. An entry is popped only when more than its length is
  still to be taken, so the loop never runs off the end with lines left to take.
\<close>

lemma cut_loop_sum:
  "0 \<le> r \<Longrightarrow> r \<le> sum_list (map ent_length es) \<Longrightarrow>
     sum_list (map ent_length (cut_loop es r)) = sum_list (map ent_length es) - r"
  by (induction es r rule: cut_loop.induct) (auto simp: Let_def)

lemma split_table_sum:
  assumes "0 \<le> off" "off < ent_length e"
    and "sum_list (map ent_length pre) + off + len \<le> sum_list (map ent_length (pre @ e # post))"
  shows "sum_list (map ent_length (split_table pre e post off new_id len))
           = sum_list (map ent_length (pre @ e # post))"
  using assms by (auto simp: split_table_def cut_loop_sum)

lemma open_block_pt_len: "pt_len (fst (open_block t start len)) = pt_len t"
proof (cases "snd (open_block t start len)")
  case (Inl x)
  then have "open_block t start len = (fst (open_block t start len), Inl x)"
    by (metis prod.collapse)
  from open_block_Inl[OF this] show ?thesis by simp
next
  case (Inr h)
  then have "open_block t start len = (fst (open_block t start len), Inr h)"
    by (metis prod.collapse)
  from open_block_Inr[OF this] obtain pre e post where
    d: "table t = pre @ e # post"
       "0 \<le> start - sum_list (map ent_length pre)"
       "start - sum_list (map ent_length pre) < ent_length e"
       "start + len \<le> pt_len t"
       "table (fst (open_block t start len)) =
          split_table pre e post (start - sum_list (map ent_length pre))
            (int (length (blocks t))) len"
    by blast
  from d(4) d(1) have
    "sum_list (map ent_length pre) + (start - sum_list (map ent_length pre)) + len
       \<le> sum_list (map ent_length (pre @ e # post))"
    by (simp add: pt_len_def)
  from split_table_sum[OF d(2) d(3) this] d(1) d(5) show ?thesis
    by (simp add: pt_len_def)
qed

lemma exec_pt_len: "pt_len (exec t c) = pt_len t"
  by (cases c) (simp_all add: open_block_pt_len, simp add: pt_len_def close_block_table)

lemma foldl_exec_pt_len: "pt_len (foldl exec t cs) = pt_len t"
  by (induction cs arbitrary: t) (simp_all add: exec_pt_len)

subsection \<open>No negative lengths\<close>

lemma cut_loop_nonneg:
  "list_all (\<lambda>e. 0 \<le> ent_length e) es \<Longrightarrow> list_all (\<lambda>e. 0 \<le> ent_length e) (cut_loop es r)"
  by (induction es r rule: cut_loop.induct) (auto simp: Let_def)

lemma split_table_nonneg:
  assumes "list_all (\<lambda>e. 0 \<le> ent_length e) (pre @ e # post)" "0 \<le> off" "0 \<le> len"
  shows "list_all (\<lambda>e. 0 \<le> ent_length e) (split_table pre e post off new_id len)"
  using assms by (auto simp: split_table_def cut_loop_nonneg)

lemma open_block_nonneg:
  assumes "nonneg_entries t" "0 \<le> len"
  shows "nonneg_entries (fst (open_block t start len))"
proof (cases "snd (open_block t start len)")
  case (Inl x)
  then have "open_block t start len = (fst (open_block t start len), Inl x)"
    by (metis prod.collapse)
  from open_block_Inl[OF this] assms show ?thesis by simp
next
  case (Inr h)
  then have "open_block t start len = (fst (open_block t start len), Inr h)"
    by (metis prod.collapse)
  from open_block_Inr[OF this] obtain pre e post where
    d: "table t = pre @ e # post"
       "0 \<le> start - sum_list (map ent_length pre)"
       "table (fst (open_block t start len)) =
          split_table pre e post (start - sum_list (map ent_length pre))
            (int (length (blocks t))) len"
    by blast
  from assms(1) d(1) have "list_all (\<lambda>e. 0 \<le> ent_length e) (pre @ e # post)"
    by (simp add: nonneg_entries_def)
  from split_table_nonneg[OF this d(2) assms(2)] d(3) show ?thesis
    by (simp add: nonneg_entries_def)
qed

lemma exec_nonneg: "nonneg_entries t \<Longrightarrow> nonneg_call c \<Longrightarrow> nonneg_entries (exec t c)"
  by (cases c)
     (simp_all add: open_block_nonneg nonneg_call_def, simp add: nonneg_entries_def close_block_table)

lemma foldl_exec_nonneg:
  "nonneg_entries t \<Longrightarrow> list_all nonneg_call cs \<Longrightarrow> nonneg_entries (foldl exec t cs)"
  by (induction cs arbitrary: t) (simp_all add: exec_nonneg)

subsection \<open>The lines of a string\<close>

text \<open>
  \<open>splitlines\<close> computes the list of lines that \<open>keepends_lines\<close> describes, and
  that list is the only one: lemma \<open>keepends_lines_splitlines\<close>.
\<close>

lemma terminators_boundaries: "set line_terminators = set line_boundaries"
  by (auto simp: line_terminators_def line_boundaries_def)

lemma starts_break_iff: "starts_break s = (\<exists>t \<in> set line_boundaries. at_head t s)"
  by (simp add: starts_break_def list_ex_iff terminators_boundaries at_head_def)

lemma terminated_iff:
  "terminated l =
     (\<exists>t \<in> set line_boundaries. length t \<le> length l \<and> drop (length l - length t) l = t
        \<and> no_break (take (length l - length t) l))"
  by (simp add: terminated_def list_ex_iff terminators_boundaries)

lemma boundary_nonempty: "t \<in> set line_boundaries \<Longrightarrow> t \<noteq> []"
  by (auto simp: line_boundaries_def)

lemma line_end_0: "(line_end s = 0) = (\<not> starts_break s)"
proof (cases "find (\<lambda>t. at_head t s) line_boundaries")
  case None
  then have "line_end s = 0" by (simp add: line_end_def)
  moreover from None have "\<not> starts_break s"
    by (simp add: starts_break_iff find_None_iff)
  ultimately show ?thesis by simp
next
  case (Some t)
  then have "t \<in> set line_boundaries" "at_head t s"
    by (auto simp: find_Some_iff)
  with Some boundary_nonempty[of t] show ?thesis
    by (auto simp: line_end_def starts_break_iff)
qed

lemma line_end_boundary:
  assumes "line_end s \<noteq> 0"
  shows "\<exists>t \<in> set line_boundaries. at_head t s \<and> line_end s = length t"
proof (cases "find (\<lambda>t. at_head t s) line_boundaries")
  case None
  with assms show ?thesis by (simp add: line_end_def)
next
  case (Some t)
  then have "t \<in> set line_boundaries" "at_head t s"
    by (auto simp: find_Some_iff)
  with Some show ?thesis by (auto simp: line_end_def)
qed

lemma at_head_take: "at_head t s \<Longrightarrow> take (length t) s = t"
  by (simp add: at_head_def)

lemma at_head_len: "at_head t s \<Longrightarrow> length t \<le> length s"
  by (metis at_head_def length_take min.cobounded1)

lemma at_head_append: "at_head t s \<Longrightarrow> at_head t (s @ x)"
  using at_head_len[of t s] by (simp add: at_head_def)

lemma line_end_crlf: "at_head [CHR 0x0D, CHR 0x0A] s \<Longrightarrow> line_end s = 2"
  by (simp add: line_end_def line_boundaries_def)

lemma boundary_cases:
  "t \<in> set line_boundaries \<Longrightarrow>
     t = [CHR 0x0D, CHR 0x0A] \<or> t = [CHR 0x0A] \<or> t = [CHR 0x0B] \<or> t = [CHR 0x0C]
     \<or> t = [CHR 0x0D] \<or> t = [CHR 0x1C] \<or> t = [CHR 0x1D] \<or> t = [CHR 0x1E]
     \<or> t = [CHR 0xC2, CHR 0x85] \<or> t = [CHR 0xE2, CHR 0x80, CHR 0xA8]
     \<or> t = [CHR 0xE2, CHR 0x80, CHR 0xA9]"
  by (simp add: line_boundaries_def)

lemma line_end_at_boundary:
  assumes "t \<in> set line_boundaries"
    and "\<not> (t = [CHR 0x0D] \<and> x \<noteq> [] \<and> hd x = CHR 0x0A)"
  shows "line_end (t @ x) = length t"
  using boundary_cases[OF assms(1)] assms(2)
  by (elim disjE; cases x; simp add: line_boundaries_def line_end_def at_head_def)


lemma boundary_ok_head:
  assumes "t \<in> set line_boundaries"
  shows "ok_head (t @ x)"
  using boundary_cases[OF assms] by (elim disjE; simp add: ok_head_def)

lemma ok_head_Nil: "ok_head []"
  by (simp add: ok_head_def)

lemma list_shape:
  obtains "cs = []" | d where "cs = [d]" | d e r where "cs = d # e # r"
  by (cases cs; cases "tl cs"; auto)

lemma at_head_lookahead:
  assumes "t \<in> set line_boundaries" "at_head t (c # cs @ x)" "ok_head x"
  shows "at_head t (c # cs) \<or> at_head [CHR 0x0D] (c # cs)"
proof (cases cs rule: list_shape)
  case 1
  with boundary_cases[OF assms(1)] assms(2,3) show ?thesis
    by (elim disjE; cases x; simp add: at_head_def ok_head_def)
next
  case (2 d)
  with boundary_cases[OF assms(1)] assms(2,3) show ?thesis
    by (elim disjE; cases x; simp add: at_head_def ok_head_def)
next
  case (3 d e r)
  with boundary_cases[OF assms(1)] assms(2) show ?thesis
    by (elim disjE; simp add: at_head_def)
qed

lemma starts_break_lookahead:
  assumes "\<not> starts_break (c # cs)" "ok_head x"
  shows "\<not> starts_break (c # cs @ x)"
proof
  assume "starts_break (c # cs @ x)"
  then obtain t where t: "t \<in> set line_boundaries" "at_head t (c # cs @ x)"
    by (auto simp: starts_break_iff)
  from at_head_lookahead[OF t assms(2)] have "at_head t (c # cs) \<or> at_head [CHR 0x0D] (c # cs)" .
  moreover have "[CHR 0x0D] \<in> set line_boundaries" by (simp add: line_boundaries_def)
  ultimately have "starts_break (c # cs)"
    using t(1) by (auto simp: starts_break_iff)
  with assms(1) show False by simp
qed

lemma starts_break_append: "starts_break u \<Longrightarrow> starts_break (u @ x)"
  by (auto simp: starts_break_iff intro: at_head_append)

lemma no_break_clean: "no_break body \<Longrightarrow> ok_head x \<Longrightarrow> clean body x"
  by (induction body) (simp_all add: starts_break_lookahead)

lemma clean_no_break: "clean body x \<Longrightarrow> no_break body"
proof (induction body)
  case Nil
  then show ?case by simp
next
  case (Cons c cs)
  then show ?case using starts_break_append[of "c # cs" x] by auto
qed

lemma clean_snoc: "clean (cur @ [c]) cs = (clean cur (c # cs) \<and> \<not> starts_break (c # cs))"
  by (induction cur) auto

lemma splitlines_from_clean:
  "clean body x \<Longrightarrow> splitlines_from cur (body @ x) = splitlines_from (cur @ body) x"
  by (induction body arbitrary: cur) (simp_all add: line_end_0 Let_def)

lemma splitlines_from_concat: "concat (splitlines_from cur s) = cur @ s"
  by (induction cur s rule: splitlines_from.induct) (simp_all add: Let_def)

lemma splitlines_from_break:
  assumes "s \<noteq> []" "line_end s \<noteq> 0"
  shows "splitlines_from cur s = (cur @ take (line_end s) s) # splitlines_from [] (drop (line_end s) s)"
  using assms by (cases s) (simp_all add: Let_def)

lemma terminated_split:
  assumes "terminated l"
  obtains body t where "l = body @ t" "t \<in> set line_boundaries" "no_break body"
proof -
  from assms obtain t where t: "t \<in> set line_boundaries" "length t \<le> length l"
      "drop (length l - length t) l = t" "no_break (take (length l - length t) l)"
    by (auto simp: terminated_iff)
  have "l = take (length l - length t) l @ t"
    using t(3) append_take_drop_id[of "length l - length t" l] by simp
  with t(1,4) show ?thesis using that by blast
qed

lemma last_boundary_cr:
  assumes "t \<in> set line_boundaries"
  shows "(last t = CHR 0x0D) = (t = [CHR 0x0D])"
  using boundary_cases[OF assms] by (elim disjE; simp)

lemma splitlines_from_line:
  assumes "terminated l" "\<not> (last l = CHR 0x0D \<and> rest \<noteq> [] \<and> hd rest = CHR 0x0A)"
  shows "splitlines_from [] (l @ rest) = l # splitlines_from [] rest"
proof -
  from assms(1) obtain body t where
    l: "l = body @ t" "t \<in> set line_boundaries" "no_break body"
    by (rule terminated_split)
  from l(2) have tne: "t \<noteq> []" by (rule boundary_nonempty)
  with l(1) have "last l = last t" by simp
  with assms(2) last_boundary_cr[OF l(2)]
  have side: "\<not> (t = [CHR 0x0D] \<and> rest \<noteq> [] \<and> hd rest = CHR 0x0A)" by simp
  have n: "line_end (t @ rest) = length t"
    by (rule line_end_at_boundary[OF l(2) side])
  have "clean body (t @ rest)"
    by (rule no_break_clean[OF l(3) boundary_ok_head[OF l(2)]])
  then have "splitlines_from [] (body @ t @ rest) = splitlines_from body (t @ rest)"
    using splitlines_from_clean[of body "t @ rest" "[]"] by simp
  also have "\<dots> = (body @ take (line_end (t @ rest)) (t @ rest))
                      # splitlines_from [] (drop (line_end (t @ rest)) (t @ rest))"
    using tne n by (intro splitlines_from_break) simp_all
  also have "\<dots> = (body @ t) # splitlines_from [] rest"
    by (simp add: n)
  finally show ?thesis by (simp add: l(1))
qed

lemma splitlines_from_last:
  assumes "no_break l" "l \<noteq> []"
  shows "splitlines_from [] l = [l]"
proof -
  have "clean l []" by (rule no_break_clean[OF assms(1) ok_head_Nil])
  from splitlines_from_clean[OF this, of "[]"] assms(2) show ?thesis by simp
qed

lemma terminated_nonempty: "terminated l \<Longrightarrow> l \<noteq> []"
  by (erule terminated_split) (auto dest: boundary_nonempty)

lemma lines_ok_head_nonempty: "lines_ok (l # ls) \<Longrightarrow> l \<noteq> []"
  by (cases ls) (auto dest: terminated_nonempty)

lemma lines_ok_splitlines: "lines_ok ls \<Longrightarrow> splitlines_from [] (concat ls) = ls"
proof (induction ls rule: lines_ok.induct)
  case 1
  then show ?case by simp
next
  case (2 l)
  then show ?case
    using splitlines_from_last[of l] splitlines_from_line[of l "[]"] by auto
next
  case (3 l l' ls)
  from "3.prems" have t: "terminated l" and ok: "lines_ok (l' # ls)"
    and cr: "\<not> (last l = CHR 0x0D \<and> hd l' = CHR 0x0A)" by simp_all
  from ok have "l' \<noteq> []" by (rule lines_ok_head_nonempty)
  then have "hd (concat (l' # ls)) = hd l'" by simp
  with cr have "\<not> (last l = CHR 0x0D \<and> concat (l' # ls) \<noteq> [] \<and> hd (concat (l' # ls)) = CHR 0x0A)"
    by simp
  from splitlines_from_line[OF t this] "3.IH"[OF ok] show ?case by simp
qed

lemma splitlines_from_first:
  "splitlines_from cur r = l # ls \<Longrightarrow> l \<noteq> [] \<and> hd l = hd (cur @ r)"
proof (induction cur r rule: splitlines_from.induct)
  case (1 cur)
  then show ?case by (auto split: if_splits)
next
  case (2 cur c cs)
  show ?case
  proof (cases "line_end (c # cs) = 0")
    case True
    with 2 show ?thesis by (simp add: Let_def)
  next
    case False
    with "2.prems" have "l = cur @ take (line_end (c # cs)) (c # cs)" by (simp add: Let_def)
    with False show ?thesis by (cases cur; cases "line_end (c # cs)"; simp)
  qed
qed

lemma clean_lines_ok: "clean cur s \<Longrightarrow> lines_ok (splitlines_from cur s)"
proof (induction cur s rule: splitlines_from.induct)
  case (1 cur)
  then show ?case using clean_no_break[of cur "[]"] by simp
next
  case (2 cur c cs)
  let ?s = "c # cs"
  show ?case
  proof (cases "line_end ?s = 0")
    case True
    with "2.prems" have "clean (cur @ [c]) cs" by (simp add: clean_snoc line_end_0)
    with True "2.IH"(1) show ?thesis by (simp add: Let_def)
  next
    case False
    define n where "n = line_end ?s"
    from False line_end_boundary[of ?s] obtain t where
      t: "t \<in> set line_boundaries" "at_head t ?s" "n = length t"
      by (auto simp: n_def)
    have tk: "take n ?s = t" using at_head_take[OF t(2)] t(3) by simp
    have nb: "no_break cur" by (rule clean_no_break[OF "2.prems"])
    have tl_ok: "terminated (cur @ t)"
      unfolding terminated_iff
      by (rule bexI[OF _ t(1)]) (simp add: nb)
    have rest_ok: "lines_ok (splitlines_from [] (drop n ?s))"
      using "2.IH"(2)[of n] False by (simp add: n_def)
    have res: "splitlines_from cur ?s = (cur @ t) # splitlines_from [] (drop n ?s)"
      using False tk by (simp add: Let_def n_def)
    show ?thesis
    proof (cases "splitlines_from [] (drop n ?s)")
      case Nil
      with res tl_ok show ?thesis
        using terminated_nonempty[OF tl_ok] by simp
    next
      case (Cons l' ls')
      from splitlines_from_first[OF Cons] have h: "l' \<noteq> []" "hd l' = hd (drop n ?s)" by simp_all
      have "\<not> (last (cur @ t) = CHR 0x0D \<and> hd l' = CHR 0x0A)"
      proof
        assume a: "last (cur @ t) = CHR 0x0D \<and> hd l' = CHR 0x0A"
        from boundary_nonempty[OF t(1)] a have "last t = CHR 0x0D" by simp
        with last_boundary_cr[OF t(1)] have tcr: "t = [CHR 0x0D]" by simp
        with t(3) have n1: "n = 1" by simp
        from Cons have "drop n ?s \<noteq> []" by auto
        with n1 a h(2) obtain cs' where "cs = CHR 0x0A # cs'" by (cases cs) auto
        with tk tcr n1 have "at_head [CHR 0x0D, CHR 0x0A] ?s" by (simp add: at_head_def)
        from line_end_crlf[OF this] n1 show False by (simp add: n_def)
      qed
      with res Cons tl_ok rest_ok show ?thesis by simp
    qed
  qed
qed

lemma keepends_lines_splitlines: "keepends_lines s ls = (ls = splitlines s)"
proof
  assume "keepends_lines s ls"
  then show "ls = splitlines s"
    using lines_ok_splitlines[of ls] by (auto simp: keepends_lines_def splitlines_def)
next
  assume "ls = splitlines s"
  then show "keepends_lines s ls"
    using clean_lines_ok[of "[]" s]
    by (simp add: keepends_lines_def splitlines_def splitlines_from_concat)
qed

section \<open>The claims of the specification\<close>

subsection \<open>C1: does \<open>open_block\<close> keep the document?\<close>

text \<open>
  C1 says that a successful \<open>open_block\<close> leaves the line sequence of \<open>stitch\<close> as it
  was. The code does not keep it when the region starts inside one entry and runs on
  into the next: \<open>get_lines\<close> takes the whole length of the first entry off the
  remaining length, not the part of it behind the offset, so the snapshot comes out
  short, while the new entry is still given the requested length. On the document
  a, b, c, d: \<open>open_block(2, 2)\<close> returns 1, \<open>close_block(1)\<close> closes that block, the
  document still stitches to a, b, c, d, and then \<open>open_block(1, 2)\<close> succeeds and the
  document stitches to a, b, d: the line c is lost.
\<close>

theorem open_block_loses_line:
  "let d = PieceTable_init (LineList [''a'', ''b'', ''c'', ''d'']);
       r1 = open_block d 2 2;
       r2 = close_block (fst r1) 1;
       r3 = open_block (fst r2) 1 2
   in snd r1 = Inr 1 \<and> snd r2 = Inr ()
      \<and> stitch (fst r2) = Inr [''a'', ''b'', ''c'', ''d'']
      \<and> snd r3 = Inr 1
      \<and> stitch (fst r3) = Inr [''a'', ''b'', ''d'']"
  by code_simp

subsection \<open>C2: is the value \<open>open_block\<close> returns a handle for \<open>close_block\<close>?\<close>

text \<open>
  C2 says that \<open>close_block\<close>, given the value a successful \<open>open_block\<close> returned,
  does not fail and closes the block that call created. \<open>open_block\<close> returns
  \<open>index + 1\<close>, the table position of the new entry, and \<open>close_block\<close> uses its
  argument as a position in the block list. On the document a, b, c, d:
  \<open>open_block(0, 1)\<close> returns 1, then \<open>open_block(1, 1)\<close> returns 3 while its block is
  the third of three blocks (id 2), and \<open>close_block(3)\<close> raises \<^verbatim>\<open>IndexError\<close>; the
  block just created stays open.
\<close>

theorem open_block_returns_table_position:
  "let d = PieceTable_init (LineList [''a'', ''b'', ''c'', ''d'']);
       r1 = open_block d 0 1;
       r2 = open_block (fst r1) 1 1;
       r3 = close_block (fst r2) 3
   in snd r1 = Inr 1 \<and> snd r2 = Inr 3
      \<and> length (blocks (fst r2)) = 3
      \<and> snd r3 = Inl IndexError
      \<and> map tb_is_open (blocks (fst r3)) = [False, True, True]"
  by code_simp

subsection \<open>C3: the sum of the entries' lengths\<close>

text \<open>
  C3: for a table constructed from a list of \<open>N\<close> lines and every sequence of
  \<open>open_block\<close> and \<open>close_block\<close> calls, the sum of the entries' lengths (the value of
  \<^verbatim>\<open>__len__\<close>) is \<open>N\<close> after every call, that is, after every initial part \<open>take n cs\<close>
  of the sequence. It holds for all arguments, also for the calls that raise.
\<close>

theorem pt_len_invariant:
  "pt_len (foldl exec (PieceTable_init (LineList ls)) (take n cs)) = int (length ls)"
  by (simp add: foldl_exec_pt_len) (simp add: PieceTable_init_def pt_len_def)

subsection \<open>C4: the locking scenario\<close>

text \<open>
  C4: on a table constructed from a document of 10 lines, \<open>open_block(2, 3)\<close> succeeds;
  \<open>open_block(3, 2)\<close> right after it raises \<^verbatim>\<open>ValueError("Illegal block request")\<close>, the
  specification's IllegalRegion, and leaves the table as it was; \<open>open_block(5, 3)\<close>
  right after that succeeds.
\<close>

theorem locking_scenario:
  assumes "length ls = 10"
  shows "let r1 = open_block (PieceTable_init (LineList ls)) 2 3;
             r2 = open_block (fst r1) 3 2;
             r3 = open_block (fst r2) 5 3
         in snd r1 = Inr 1
            \<and> snd r2 = Inl (ValueError ''Illegal block request'') \<and> fst r2 = fst r1
            \<and> snd r3 = Inr 3"
proof -
  define t1 where "t1 =
    \<lparr>blocks = [\<lparr>opened = False, lines = ls\<rparr>, \<lparr>opened = True, lines = py_slice ls 2 5\<rparr>],
     table = [\<lparr>ent_block = 0, ent_start = 0, ent_length = 2\<rparr>,
              \<lparr>ent_block = 1, ent_start = 0, ent_length = 3\<rparr>,
              \<lparr>ent_block = 0, ent_start = 5, ent_length = 5\<rparr>]\<rparr>"
  have r1: "open_block (PieceTable_init (LineList ls)) 2 3 = (t1, Inr 1)"
    using assms
    by (simp add: open_block_def PieceTable_init_def TextBlock_init_def get_block_range_def
        line_to_table_index_def Let_def py_index_def tb_is_open_def pt_len_def get_lines_def
        tb_get_lines_def list_insert_def t1_def)
  have r2: "open_block t1 3 2 = (t1, Inl (ValueError ''Illegal block request''))"
    by (simp add: open_block_def get_block_range_def
        line_to_table_index_def Let_def py_index_def tb_is_open_def t1_def)
  have r3: "snd (open_block t1 5 3) = Inr 3"
    by (simp add: open_block_def get_block_range_def
        line_to_table_index_def Let_def py_index_def tb_is_open_def pt_len_def get_lines_def
        tb_get_lines_def list_insert_def t1_def)
  show ?thesis by (simp add: r1 r2 r3 Let_def)
qed

theorem locking_scenario_witness:
  "length [''alpha'', ''beta'', ''gamma'', ''delta'', ''epsilon'',
           ''zeta'', ''eta'', ''theta'', ''iota'', ''kappa''] = 10 \<and>
   (let r1 = open_block (PieceTable_init (LineList
               [''alpha'', ''beta'', ''gamma'', ''delta'', ''epsilon'',
                ''zeta'', ''eta'', ''theta'', ''iota'', ''kappa''])) 2 3;
        r2 = open_block (fst r1) 3 2;
        r3 = open_block (fst r2) 5 3
    in snd r1 = Inr 1
       \<and> snd r2 = Inl (ValueError ''Illegal block request'') \<and> fst r2 = fst r1
       \<and> snd r3 = Inr 3)"
proof -
  have h: "length [''alpha'', ''beta'', ''gamma'', ''delta'', ''epsilon'',
                   ''zeta'', ''eta'', ''theta'', ''iota'', ''kappa''] = 10"
    by simp
  from locking_scenario[OF h] h show ?thesis by blast
qed

subsection \<open>C5: a failed \<open>open_block\<close>\<close>

text \<open>
  C5: whenever \<open>open_block\<close> raises, the table is exactly as it was before the call,
  block list and entry list alike.
\<close>

theorem open_block_failure_unchanged:
  "open_block t start len = (t', Inl x) \<Longrightarrow> t' = t"
  by (rule open_block_Inl)

theorem open_block_failure_unchanged_witness:
  "open_block (fst (open_block (PieceTable_init (LineList [''a'', ''b'', ''c''])) 1 1)) 0 2
     = (fst (open_block (PieceTable_init (LineList [''a'', ''b'', ''c''])) 1 1),
        Inl (ValueError ''Illegal block request''))"
proof -
  define t where "t = fst (open_block (PieceTable_init (LineList [''a'', ''b'', ''c''])) 1 1)"
  have "snd (open_block (fst (open_block (PieceTable_init (LineList [''a'', ''b'', ''c''])) 1 1)) 0 2)
          = Inl (ValueError ''Illegal block request'')"
    by code_simp
  then have h: "open_block t 0 2 = (fst (open_block t 0 2), Inl (ValueError ''Illegal block request''))"
    unfolding t_def by (metis prod.collapse)
  from open_block_failure_unchanged[OF h] h show ?thesis
    unfolding t_def by simp
qed

subsection \<open>C6: the block \<open>remove_closed_blocks\<close> installs\<close>

text \<open>
  C6 says that the block \<open>remove_closed_blocks\<close> installs is closed. The code builds it
  with \<^verbatim>\<open>TextBlock(stitched_file)\<close>, whose \<^verbatim>\<open>is_open\<close> defaults to \<^verbatim>\<open>True\<close>, where the
  constructor of the table builds the original block with \<^verbatim>\<open>TextBlock(lines, False)\<close>.
  On the document a, b the installed block reports \<open>is_open()\<close> as true, and an
  \<open>open_block(0, 1)\<close> that succeeded before the call is refused after it.
\<close>

theorem remove_closed_blocks_installs_open_block:
  "let d = PieceTable_init (LineList [''a'', ''b'']);
       r = remove_closed_blocks d
   in snd r = Inr [''a'', ''b'']
      \<and> map tb_is_open (blocks d) = [False]
      \<and> map tb_is_open (blocks (fst r)) = [True]
      \<and> map lines (blocks (fst r)) = [[''a'', ''b'']]
      \<and> snd (open_block d 0 1) = Inr 1
      \<and> snd (open_block (fst r) 0 1) = Inl (ValueError ''Illegal block request'')"
  by code_simp

subsection \<open>C7: entries of length 0\<close>

text \<open>
  C7, as amended: after construction and after every call of a sequence whose
  \<open>open_block\<close> calls ask for a length of at least 0, every entry of the table has a
  length of at least 0. (A length of 0 does occur, see the counterexample.)
\<close>

theorem entry_lengths_nonneg:
  "list_all nonneg_call cs \<Longrightarrow> nonneg_entries (foldl exec (PieceTable_init d) (take n cs))"
proof -
  assume "list_all nonneg_call cs"
  then have "list_all nonneg_call (take n cs)"
    by (simp add: list_all_iff) (meson in_set_takeD)
  moreover have "nonneg_entries (PieceTable_init d)"
    by (simp add: PieceTable_init_def nonneg_entries_def Let_def)
  ultimately show ?thesis by (simp add: foldl_exec_nonneg)
qed

theorem entry_lengths_nonneg_witness:
  "list_all nonneg_call [OpenBlock 0 3, CloseBlock 1, OpenBlock 4 0, OpenBlock 9 9] \<and>
   map ent_length (table (foldl exec
       (PieceTable_init (LineList [''a'', ''b'', ''c'', ''d'', ''e'', ''f'']))
       (take 3 [OpenBlock 0 3, CloseBlock 1, OpenBlock 4 0, OpenBlock 9 9]))) = [0, 3, 1, 0, 2] \<and>
   nonneg_entries (foldl exec
       (PieceTable_init (LineList [''a'', ''b'', ''c'', ''d'', ''e'', ''f'']))
       (take 3 [OpenBlock 0 3, CloseBlock 1, OpenBlock 4 0, OpenBlock 9 9]))"
proof -
  have h: "list_all nonneg_call [OpenBlock 0 3, CloseBlock 1, OpenBlock 4 0, OpenBlock 9 9]"
    by (simp add: nonneg_call_def)
  have e: "map ent_length (table (foldl exec
       (PieceTable_init (LineList [''a'', ''b'', ''c'', ''d'', ''e'', ''f'']))
       (take 3 [OpenBlock 0 3, CloseBlock 1, OpenBlock 4 0, OpenBlock 9 9]))) = [0, 3, 1, 0, 2]"
    by code_simp
  from entry_lengths_nonneg[OF h, of "LineList [''a'', ''b'', ''c'', ''d'', ''e'', ''f'']" 3] h e
  show ?thesis by blast
qed

text \<open>
  C7 as stated fails: on the document a, b, c the call \<open>open_block(0, 1)\<close> succeeds and
  the entry that held line 0 stays in the table with length 0.
\<close>

theorem open_block_leaves_empty_entry:
  "snd (open_block (PieceTable_init (LineList [''a'', ''b'', ''c''])) 0 1) = Inr 1 \<and>
   map ent_length (table (fst (open_block (PieceTable_init (LineList [''a'', ''b'', ''c''])) 0 1)))
     = [0, 1, 2]"
  by code_simp

subsection \<open>C8: the slice of a block\<close>

text \<open>
  C8, as amended: \<open>TextBlock.get_lines\<close> never fails. For all integers \<open>start\<close> and
  \<open>length\<close> it returns the Python slice \<^verbatim>\<open>lines[start:start + length]\<close>. For a start and a
  length of at least 0 these are the lines of the block from position \<open>start\<close> on, at most
  \<open>length\<close> of them: the whole requested run when \<open>start + length\<close> is within the block,
  and the run cut off at the end of the block when it is not.
\<close>

theorem tb_get_lines_clamps:
  "tb_get_lines b start len = Inr (py_slice (lines b) start (start + len)) \<and>
   (0 \<le> start \<and> 0 \<le> len \<longrightarrow>
      tb_get_lines b start len = Inr (take (nat len) (drop (nat start) (lines b))))"
  by (simp add: tb_get_lines_def slice_nonneg)

theorem tb_get_lines_clamps_witness:
  "(0::int) \<le> 1 \<and> (0::int) \<le> 5 \<and>
   tb_get_lines \<lparr>opened = True, lines = [''a'', ''b'', ''c'', ''d'']\<rparr> 1 5 = Inr [''b'', ''c'', ''d''] \<and>
   tb_get_lines \<lparr>opened = True, lines = [''a'', ''b'', ''c'', ''d'']\<rparr> 1 (- 2) = Inr [''b'', ''c''] \<and>
   tb_get_lines \<lparr>opened = True, lines = [''a'', ''b'', ''c'', ''d'']\<rparr> (- 9) 3 = Inr []"
  using tb_get_lines_clamps[of "\<lparr>opened = True, lines = [''a'', ''b'', ''c'', ''d'']\<rparr>" 1 5]
        tb_get_lines_clamps[of "\<lparr>opened = True, lines = [''a'', ''b'', ''c'', ''d'']\<rparr>" 1 "- 2"]
        tb_get_lines_clamps[of "\<lparr>opened = True, lines = [''a'', ''b'', ''c'', ''d'']\<rparr>" "- 9" 3]
  by (simp add: py_slice_def slice_bound_def)

text \<open>
  C8 as stated fails: on a block of one line, \<open>get_lines(0, 5)\<close> has \<open>start + length\<close>
  beyond the block's length and returns the one line.
\<close>

theorem tb_get_lines_past_end:
  "0 + 5 > tb_len \<lparr>opened = True, lines = [''a'']\<rparr> \<and>
   tb_get_lines \<lparr>opened = True, lines = [''a'']\<rparr> 0 5 = Inr [''a'']"
  by (simp add: tb_len_def tb_get_lines_def py_slice_def slice_bound_def)

subsection \<open>C9: \<open>close_block\<close>\<close>

text \<open>
  C9, as amended: \<open>close_block(id)\<close> fails, with \<^verbatim>\<open>IndexError\<close>, exactly when \<open>id\<close> is
  outside \<open>-n \<le> id < n\<close> for the number \<open>n\<close> of blocks, and then it changes nothing.
  Otherwise it marks one block closed, the block at position \<open>id\<close> when \<open>id \<ge> 0\<close> and
  the block at position \<open>n + id\<close> when \<open>id < 0\<close>, and changes nothing else: the table
  and all other blocks stay as they were.
\<close>

theorem close_block_result:
  "close_block t index =
     (if - int (length (blocks t)) \<le> index \<and> index < int (length (blocks t)) then
        (let k = nat (if index < 0 then int (length (blocks t)) + index else index)
         in (t\<lparr>blocks := (blocks t)[k := (blocks t ! k)\<lparr>opened := False\<rparr>]\<rparr>, Inr ()))
      else (t, Inl IndexError))"
  by (auto simp: close_block_def py_index_def tb_close_def Let_def)

text \<open>
  C9 as stated fails: \<open>-1\<close> is no append position of the block list, and
  \<open>close_block(-1)\<close> does not fail but closes the last block. On the document a, b
  after \<open>open_block(0, 1)\<close> the blocks are the original one and the open one;
  \<open>close_block(-1)\<close> returns and the second block is closed.
\<close>

theorem close_block_negative_id:
  "let t = fst (open_block (PieceTable_init (LineList [''a'', ''b''])) 0 1);
       r = close_block t (- 1)
   in map tb_is_open (blocks t) = [False, True]
      \<and> snd r = Inr ()
      \<and> map tb_is_open (blocks (fst r)) = [False, False]"
  by code_simp

subsection \<open>C10: construction from a string\<close>

text \<open>
  C10: for every string \<open>s\<close> there is a list of the lines of \<open>s\<close> in which every line
  keeps its own terminator, and for that list \<open>ls\<close>, constructing the table from \<open>s\<close>
  gives the same state as constructing it from \<open>ls\<close>: one closed block holding the lines
  \<open>ls\<close> and the one entry \<open>(0, 0, N)\<close> for their number \<open>N\<close>.
\<close>

theorem PieceTable_init_string:
  "(\<exists>ls. keepends_lines s ls) \<and>
   (keepends_lines s ls \<longrightarrow>
      PieceTable_init (StrText s) = PieceTable_init (LineList ls)
      \<and> PieceTable_init (StrText s) =
          \<lparr>blocks = [\<lparr>opened = False, lines = ls\<rparr>],
           table = [\<lparr>ent_block = 0, ent_start = 0, ent_length = int (length ls)\<rparr>]\<rparr>)"
proof -
  have "keepends_lines s (splitlines s)"
    by (simp add: keepends_lines_splitlines)
  then have "\<exists>ls. keepends_lines s ls" by blast
  then show ?thesis
    by (simp add: keepends_lines_splitlines PieceTable_init_def TextBlock_init_def Let_def)
qed

text \<open>
  An instance with every terminator of the table, and with the two bytes of U+0145, the
  second of which is the second byte of NEL and cuts nothing.
\<close>

theorem PieceTable_init_string_witness:
  "keepends_lines
     (''a'' @ [CHR 0x0D, CHR 0x0A] @ ''b'' @ [CHR 0x0A, CHR 0x0B, CHR 0x0C] @ ''c'' @ [CHR 0x0D]
        @ ''d'' @ [CHR 0x1C, CHR 0x1D, CHR 0x1E] @ [CHR 0xC5, CHR 0x85, CHR 0xC2, CHR 0x85]
        @ [CHR 0xE2, CHR 0x80, CHR 0xA8, CHR 0xE2, CHR 0x80, CHR 0xA9] @ ''f'')
     [''a'' @ [CHR 0x0D, CHR 0x0A], ''b'' @ [CHR 0x0A], [CHR 0x0B], [CHR 0x0C], ''c'' @ [CHR 0x0D],
        ''d'' @ [CHR 0x1C], [CHR 0x1D], [CHR 0x1E], [CHR 0xC5, CHR 0x85, CHR 0xC2, CHR 0x85],
        [CHR 0xE2, CHR 0x80, CHR 0xA8], [CHR 0xE2, CHR 0x80, CHR 0xA9], ''f''] \<and>
   PieceTable_init (StrText
     (''a'' @ [CHR 0x0D, CHR 0x0A] @ ''b'' @ [CHR 0x0A, CHR 0x0B, CHR 0x0C] @ ''c'' @ [CHR 0x0D]
        @ ''d'' @ [CHR 0x1C, CHR 0x1D, CHR 0x1E] @ [CHR 0xC5, CHR 0x85, CHR 0xC2, CHR 0x85]
        @ [CHR 0xE2, CHR 0x80, CHR 0xA8, CHR 0xE2, CHR 0x80, CHR 0xA9] @ ''f'')) =
     \<lparr>blocks = [\<lparr>opened = False, lines =
       [''a'' @ [CHR 0x0D, CHR 0x0A], ''b'' @ [CHR 0x0A], [CHR 0x0B], [CHR 0x0C], ''c'' @ [CHR 0x0D],
        ''d'' @ [CHR 0x1C], [CHR 0x1D], [CHR 0x1E], [CHR 0xC5, CHR 0x85, CHR 0xC2, CHR 0x85],
        [CHR 0xE2, CHR 0x80, CHR 0xA8], [CHR 0xE2, CHR 0x80, CHR 0xA9], ''f'']\<rparr>],
      table = [\<lparr>ent_block = 0, ent_start = 0, ent_length = 12\<rparr>]\<rparr>"
proof -
  have h: "keepends_lines
     (''a'' @ [CHR 0x0D, CHR 0x0A] @ ''b'' @ [CHR 0x0A, CHR 0x0B, CHR 0x0C] @ ''c'' @ [CHR 0x0D]
        @ ''d'' @ [CHR 0x1C, CHR 0x1D, CHR 0x1E] @ [CHR 0xC5, CHR 0x85, CHR 0xC2, CHR 0x85]
        @ [CHR 0xE2, CHR 0x80, CHR 0xA8, CHR 0xE2, CHR 0x80, CHR 0xA9] @ ''f'')
     [''a'' @ [CHR 0x0D, CHR 0x0A], ''b'' @ [CHR 0x0A], [CHR 0x0B], [CHR 0x0C], ''c'' @ [CHR 0x0D],
        ''d'' @ [CHR 0x1C], [CHR 0x1D], [CHR 0x1E], [CHR 0xC5, CHR 0x85, CHR 0xC2, CHR 0x85],
        [CHR 0xE2, CHR 0x80, CHR 0xA8], [CHR 0xE2, CHR 0x80, CHR 0xA9], ''f'']"
    by code_simp
  from PieceTable_init_string[of
     "(''a'' @ [CHR 0x0D, CHR 0x0A] @ ''b'' @ [CHR 0x0A, CHR 0x0B, CHR 0x0C] @ ''c'' @ [CHR 0x0D]
        @ ''d'' @ [CHR 0x1C, CHR 0x1D, CHR 0x1E] @ [CHR 0xC5, CHR 0x85, CHR 0xC2, CHR 0x85]
        @ [CHR 0xE2, CHR 0x80, CHR 0xA8, CHR 0xE2, CHR 0x80, CHR 0xA9] @ ''f'')"
     "[''a'' @ [CHR 0x0D, CHR 0x0A], ''b'' @ [CHR 0x0A], [CHR 0x0B], [CHR 0x0C], ''c'' @ [CHR 0x0D],
        ''d'' @ [CHR 0x1C], [CHR 0x1D], [CHR 0x1E], [CHR 0xC5, CHR 0x85, CHR 0xC2, CHR 0x85],
        [CHR 0xE2, CHR 0x80, CHR 0xA8], [CHR 0xE2, CHR 0x80, CHR 0xA9], ''f'']"] h
  have e: "PieceTable_init (StrText
     (''a'' @ [CHR 0x0D, CHR 0x0A] @ ''b'' @ [CHR 0x0A, CHR 0x0B, CHR 0x0C] @ ''c'' @ [CHR 0x0D]
        @ ''d'' @ [CHR 0x1C, CHR 0x1D, CHR 0x1E] @ [CHR 0xC5, CHR 0x85, CHR 0xC2, CHR 0x85]
        @ [CHR 0xE2, CHR 0x80, CHR 0xA8, CHR 0xE2, CHR 0x80, CHR 0xA9] @ ''f'')) =
     \<lparr>blocks = [\<lparr>opened = False, lines =
       [''a'' @ [CHR 0x0D, CHR 0x0A], ''b'' @ [CHR 0x0A], [CHR 0x0B], [CHR 0x0C], ''c'' @ [CHR 0x0D],
        ''d'' @ [CHR 0x1C], [CHR 0x1D], [CHR 0x1E], [CHR 0xC5, CHR 0x85, CHR 0xC2, CHR 0x85],
        [CHR 0xE2, CHR 0x80, CHR 0xA8], [CHR 0xE2, CHR 0x80, CHR 0xA9], ''f'']\<rparr>],
      table = [\<lparr>ent_block = 0, ent_start = 0, ent_length = int (length
       [''a'' @ [CHR 0x0D, CHR 0x0A], ''b'' @ [CHR 0x0A], [CHR 0x0B], [CHR 0x0C], ''c'' @ [CHR 0x0D],
        ''d'' @ [CHR 0x1C], [CHR 0x1D], [CHR 0x1E], [CHR 0xC5, CHR 0x85, CHR 0xC2, CHR 0x85],
        [CHR 0xE2, CHR 0x80, CHR 0xA8], [CHR 0xE2, CHR 0x80, CHR 0xA9], ''f''])\<rparr>]\<rparr>"
    by blast
  from h e show ?thesis by simp
qed

end
